theory Spec2Isabelle
  imports Main
begin

section \<open>The Python built-ins that temp\_extractor.py relies on\<close>

text \<open>
  The job reads text lines.  A line is modelled as a \<^typ>\<open>string\<close>: one \<^typ>\<open>char\<close> per
  character of the Python \<open>str\<close>, restricted to code points below 256.  Offsets are
  character offsets, as \<open>len\<close> and slicing count them.

  Exceptions are values: a computation that may raise returns \<open>error + 'a\<close>, with
  \<open>Inl\<close> for the exception.
\<close>

datatype error = IndexError | ValueError

text \<open>\<open>s[lo:hi]\<close> for non-negative constant bounds: clamped at the end of the string.\<close>

definition slice :: "string \<Rightarrow> nat \<Rightarrow> nat \<Rightarrow> string" where
  "slice s lo hi = take (hi - lo) (drop lo s)"

text \<open>\<open>s[lo:]\<close>.\<close>

definition slice_from :: "string \<Rightarrow> nat \<Rightarrow> string" where
  "slice_from s lo = drop lo s"

text \<open>\<open>s[i]\<close> for a non-negative index: a one-character string, or \<open>IndexError\<close>.\<close>

definition getitem :: "string \<Rightarrow> nat \<Rightarrow> error + string" where
  "getitem s i = (if i < length s then Inr [s ! i] else Inl IndexError)"

definition startswith :: "string \<Rightarrow> string \<Rightarrow> bool" where
  "startswith s p = (take (length p) s = p)"

text \<open>\<open>needle in hay\<close> on strings: \<open>needle\<close> occurs as a contiguous substring.\<close>

definition contains :: "string \<Rightarrow> string \<Rightarrow> bool" where
  "contains hay needle =
     list_ex (\<lambda>i. take (length needle) (drop i hay) = needle) [0 ..< Suc (length hay)]"

text \<open>
  The characters for which \<open>str.isspace\<close> holds, below code point 256:
  TAB, LF, VT, FF, CR, the separators FS, GS, RS, US, the space, NEL and the
  no-break space.
\<close>

definition unicode_space :: "char \<Rightarrow> bool" where
  "unicode_space c =
     (c \<in> set [CHR 0x09, CHR 0x0A, CHR 0x0B, CHR 0x0C, CHR 0x0D,
                CHR 0x1C, CHR 0x1D, CHR 0x1E, CHR 0x1F, CHR 0x20, CHR 0x85, CHR 0xA0])"

definition isspace :: "string \<Rightarrow> bool" where
  "isspace s = (s \<noteq> [] \<and> list_all unicode_space s)"

text \<open>
  The characters that \<open>int\<close> skips around a number.  The separators FS, GS, RS and US
  are not among them, although \<open>isspace\<close> holds for them.
\<close>

definition int_space :: "char \<Rightarrow> bool" where
  "int_space c =
     (c \<in> set [CHR 0x09, CHR 0x0A, CHR 0x0B, CHR 0x0C, CHR 0x0D, CHR 0x20, CHR 0x85, CHR 0xA0])"

definition is_digit :: "char \<Rightarrow> bool" where
  "is_digit c = (48 \<le> (of_char c :: nat) \<and> (of_char c :: nat) \<le> 57)"

definition digit_value :: "char \<Rightarrow> nat" where
  "digit_value c = of_char c - 48"

text \<open>
  The digit scan of \<open>int\<close> in base 10: digits, with single underscores allowed between
  two digits.  \<open>prev\<close> is the character read last, \<open>acc\<close> the value so far.  The scan
  stops at the first character that is neither a digit nor an underscore and returns
  the value with the unread rest; it fails on a doubled or a trailing underscore.
\<close>

fun scan_digits :: "char \<Rightarrow> nat \<Rightarrow> string \<Rightarrow> (nat \<times> string) option" where
  "scan_digits prev acc [] = (if prev = CHR ''_'' then None else Some (acc, []))"
| "scan_digits prev acc (c # cs) =
     (if c = CHR ''_'' then (if prev = CHR ''_'' then None else scan_digits c acc cs)
      else if is_digit c then scan_digits c (10 * acc + digit_value c) cs
      else if prev = CHR ''_'' then None
      else Some (acc, c # cs))"

text \<open>
  \<open>int(s)\<close> on a string: surrounding whitespace is skipped, one sign is optional, the
  number must start with a digit, and nothing but whitespace may follow it.  Every
  failure raises \<open>ValueError\<close>.
\<close>

definition signed :: "bool \<Rightarrow> nat \<Rightarrow> int" where
  "signed neg v = (if neg then - int v else int v)"

definition int_body :: "bool \<Rightarrow> string \<Rightarrow> error + int" where
  "int_body neg s =
     (case s of
        [] \<Rightarrow> Inl ValueError
      | c # cs \<Rightarrow>
          if \<not> is_digit c then Inl ValueError
          else (case scan_digits (CHR 0x00) 0 s of
                  None \<Rightarrow> Inl ValueError
                | Some (v, rest) \<Rightarrow>
                    if dropWhile int_space rest = [] then Inr (signed neg v)
                    else Inl ValueError))"

definition py_int :: "string \<Rightarrow> error + int" where
  "py_int s =
     (case dropWhile int_space s of
        [] \<Rightarrow> Inl ValueError
      | c # cs \<Rightarrow>
          if c = CHR ''+'' then int_body False cs
          else if c = CHR ''-'' then int_body True cs
          else int_body False (c # cs))"

text \<open>\<open>str(i)\<close> on an integer: its decimal digits, with \<open>-\<close> in front of a negative one.\<close>

definition digit_char :: "nat \<Rightarrow> char" where
  "digit_char d = char_of (48 + d)"

fun str_nat :: "nat \<Rightarrow> string" where
  "str_nat n = (if n < 10 then [digit_char n] else str_nat (n div 10) @ [digit_char (n mod 10)])"

declare str_nat.simps [simp del]

definition py_str :: "int \<Rightarrow> string" where
  "py_str i = (if i < 0 then CHR ''-'' # str_nat (nat (- i)) else str_nat (nat i))"


section \<open>The job: \<open>TempExtractor\<close>\<close>

text \<open>
  \<open>mapper(self, _, line)\<close> is a generator; its result is the list of the pairs it
  yields, or the exception that escapes it.  The job object and the input key are
  arguments of the model as they are of the method.
\<close>

definition mapper :: "'self \<Rightarrow> 'key \<Rightarrow> string \<Rightarrow> error + (string \<times> int) list" where
  "mapper self key line =
     (if length line < 93 then Inr []
      else
        let year = slice line 15 19;
            temp_str = slice line 87 92;
            temp_str = (if startswith temp_str ''+'' then slice_from temp_str 1 else temp_str)
        in if temp_str = [] \<or> isspace temp_str then Inr []
           else (case py_int temp_str of
                   Inl e \<Rightarrow> (if e = ValueError then Inr [] else Inl e)
                 | Inr temp \<Rightarrow>
                     (case getitem line 92 of
                        Inl e \<Rightarrow> Inl e
                      | Inr quality \<Rightarrow>
                          if temp \<noteq> 9999 \<and> contains ''01459'' quality
                          then Inr [(year, temp)]
                          else Inr [])))"

text \<open>
  The value of \<open>temp_str\<close> when the mapper reaches its blank test: the slice at
  offsets 87 to 92, without its first character when that is a plus sign.
\<close>

definition temp_field :: "string \<Rightarrow> string" where
  "temp_field line =
     (let temp_str = slice line 87 92
      in if startswith temp_str ''+'' then slice_from temp_str 1 else temp_str)"

text \<open>
  \<open>reducer(self, year, temps)\<close>: the loop over \<open>temps\<close> yields one pair per element,
  the key \<open>None\<close> and the formatted line.
\<close>

definition format_line :: "string \<Rightarrow> int \<Rightarrow> string" where
  "format_line year temp = year @ '' '' @ py_str temp"

fun reducer :: "'self \<Rightarrow> string \<Rightarrow> int list \<Rightarrow> (string option \<times> string) list" where
  "reducer self year [] = []"
| "reducer self year (temp # temps) = (None, format_line year temp) # reducer self year temps"


text \<open>
  The number that a string of decimal digits denotes, most significant digit first.
  It states what the output of \<open>str\<close> means; no code of the job computes it.
\<close>

definition decimal_value :: "string \<Rightarrow> nat" where
  "decimal_value ds = foldl (\<lambda>acc c. 10 * acc + digit_value c) 0 ds"


text \<open>
  The strings that \<open>int\<close> accepts, stated without reference to how it scans:
  whitespace on both sides is set aside, one sign may come first, and what is left
  must be decimal digits with, at most, single underscores between two digits.
\<close>

fun digit_groups :: "string \<Rightarrow> bool" where
  "digit_groups [] = False"
| "digit_groups [c] = is_digit c"
| "digit_groups (c # d # cs) =
     (is_digit c \<and> (if d = CHR ''_'' then digit_groups cs else digit_groups (d # cs)))"

definition trim_right :: "string \<Rightarrow> string" where
  "trim_right s = rev (dropWhile int_space (rev s))"

definition int_literal :: "string \<Rightarrow> bool" where
  "int_literal s =
     (case trim_right (dropWhile int_space s) of
        [] \<Rightarrow> False
      | c # cs \<Rightarrow>
          if c = CHR ''+'' \<or> c = CHR ''-'' then digit_groups cs else digit_groups (c # cs))"


section \<open>Example records\<close>

text \<open>
  A record of exactly 93 characters with the given year at offset 15, temperature
  field at offset 87 and quality code at offset 92; every other column holds a zero.
\<close>

definition record_line :: "string \<Rightarrow> string \<Rightarrow> string \<Rightarrow> string" where
  "record_line year temp quality =
     replicate 15 CHR ''0'' @ year @ replicate 68 CHR ''0'' @ temp @ quality"


section \<open>Facts about the built-ins\<close>

lemma contains_single: "contains hay [c] = (c \<in> set hay)"
proof -
  have "take (Suc 0) (drop i hay) = [c] \<longleftrightarrow> i < length hay \<and> hay ! i = c" for i
  proof (cases "i < length hay")
    case True
    then have "drop i hay = hay ! i # drop (Suc i) hay"
      by (simp add: Cons_nth_drop_Suc)
    with True show ?thesis by simp
  next
    case False
    then show ?thesis by simp
  qed
  then show ?thesis
    by (auto simp: contains_def list_ex_iff in_set_conv_nth)
qed

lemma unicode_space_not_number:
  "unicode_space c \<Longrightarrow> c \<noteq> CHR ''+'' \<and> c \<noteq> CHR ''-'' \<and> \<not> is_digit c"
  by (auto simp: unicode_space_def is_digit_def)

lemma int_body_error: "int_body neg s = Inl e \<Longrightarrow> e = ValueError"
  by (auto simp: int_body_def split: list.splits if_splits option.splits)

lemma py_int_error: "py_int s = Inl e \<Longrightarrow> e = ValueError"
  by (auto simp: py_int_def split: list.splits if_splits dest: int_body_error)

lemma int_body_not_digit: "\<not> is_digit c \<Longrightarrow> int_body neg (c # cs) = Inl ValueError"
  by (simp add: int_body_def)

lemma py_int_isspace: "isspace s \<Longrightarrow> py_int s = Inl ValueError"
proof -
  assume sp: "isspace s"
  show ?thesis
  proof (cases "dropWhile int_space s")
    case Nil
    show ?thesis unfolding py_int_def Nil by simp
  next
    case (Cons c cs)
    then have "c \<in> set s" by (metis list.set_intros(1) set_dropWhileD)
    with sp have "unicode_space c" by (simp add: isspace_def list_all_iff)
    then have "c \<noteq> CHR ''+''" "c \<noteq> CHR ''-''" "\<not> is_digit c"
      using unicode_space_not_number by blast+
    then show ?thesis unfolding py_int_def Cons by (simp add: int_body_not_digit)
  qed
qed

lemma py_int_empty: "py_int [] = Inl ValueError"
  by (simp add: py_int_def)

lemma mapper_short: "length line < 93 \<Longrightarrow> mapper s k line = Inr []"
  by (simp add: mapper_def)

lemma mapper_long:
  assumes "93 \<le> length line"
  shows "mapper s k line =
           (case py_int (temp_field line) of
              Inl e \<Rightarrow> Inr []
            | Inr temp \<Rightarrow>
                if temp \<noteq> 9999 \<and> line ! 92 \<in> set ''01459''
                then Inr [(slice line 15 19, temp)] else Inr [])"
proof (cases "py_int (temp_field line)")
  case (Inl e)
  then have "e = ValueError" by (rule py_int_error)
  with Inl assms show ?thesis
    by (simp add: mapper_def temp_field_def Let_def)
next
  case (Inr temp)
  then have "temp_field line \<noteq> []" "\<not> isspace (temp_field line)"
    using py_int_empty py_int_isspace by fastforce+
  moreover have "getitem line 92 = Inr [line ! 92]"
    using assms by (simp add: getitem_def)
  ultimately show ?thesis using Inr assms
    by (simp add: mapper_def temp_field_def Let_def contains_single)
qed

lemma temp_field_cases:
  "temp_field line =
     (case slice line 87 92 of [] \<Rightarrow> [] | c # cs \<Rightarrow> if c = CHR ''+'' then cs else c # cs)"
  by (simp add: temp_field_def startswith_def slice_from_def Let_def split: list.splits)

lemma slice_year_length: "93 \<le> length line \<Longrightarrow> length (slice line 15 19) = 4"
  by (simp add: slice_def)

lemma digit_value_digit_char: "d < 10 \<Longrightarrow> digit_value (digit_char d) = d"
  by (simp add: digit_value_def digit_char_def)

lemma is_digit_digit_char: "d < 10 \<Longrightarrow> is_digit (digit_char d)"
  by (simp add: is_digit_def digit_char_def)

lemma digit_char_zero: "d < 10 \<Longrightarrow> digit_char d = CHR ''0'' \<longleftrightarrow> d = 0"
proof -
  assume d: "d < 10"
  have "digit_char d = CHR ''0'' \<Longrightarrow> d = 0"
  proof -
    assume "digit_char d = CHR ''0''"
    then have "digit_value (digit_char d) = digit_value CHR ''0''" by simp
    with d show "d = 0" by (simp add: digit_value_digit_char) (simp add: digit_value_def)
  qed
  moreover have "digit_char 0 = CHR ''0''" by code_simp
  ultimately show ?thesis by auto
qed

lemma str_nat_nonempty: "str_nat n \<noteq> []"
  by (subst str_nat.simps) simp

lemma str_nat_digits: "list_all is_digit (str_nat n)"
proof (induction n rule: str_nat.induct)
  case (1 n)
  show ?case
  proof (cases "n < 10")
    case True
    then show ?thesis by (subst str_nat.simps) (simp add: is_digit_digit_char)
  next
    case False
    with 1 show ?thesis by (subst str_nat.simps) (simp add: is_digit_digit_char)
  qed
qed

lemma str_nat_value: "decimal_value (str_nat n) = n"
proof (induction n rule: str_nat.induct)
  case (1 n)
  show ?case
  proof (cases "n < 10")
    case True
    then show ?thesis
      by (subst str_nat.simps) (simp add: decimal_value_def digit_value_digit_char)
  next
    case False
    with 1 have "decimal_value (str_nat (n div 10)) = n div 10" by simp
    with False show ?thesis
      by (subst str_nat.simps) (simp add: decimal_value_def digit_value_digit_char)
  qed
qed

lemma str_nat_hd: "0 < n \<Longrightarrow> hd (str_nat n) \<noteq> CHR ''0''"
proof (induction n rule: str_nat.induct)
  case (1 n)
  show ?case
  proof (cases "n < 10")
    case True
    with 1(2) show ?thesis by (subst str_nat.simps) (simp add: digit_char_zero)
  next
    case False
    then have "0 < n div 10" by simp
    with 1(1) False have "hd (str_nat (n div 10)) \<noteq> CHR ''0''" by simp
    with False show ?thesis
      by (subst str_nat.simps) (simp add: str_nat_nonempty)
  qed
qed

lemma str_nat_zero: "str_nat 0 = ''0''"
  by code_simp

lemma is_digit_not_mark:
  "is_digit c \<Longrightarrow> c \<noteq> CHR ''_'' \<and> c \<noteq> CHR ''+'' \<and> c \<noteq> CHR ''-'' \<and> \<not> int_space c"
  by (auto simp: is_digit_def int_space_def)

lemma scan_digits_all_digits:
  "list_all is_digit ds \<Longrightarrow> prev \<noteq> CHR ''_'' \<or> ds \<noteq> [] \<Longrightarrow>
   scan_digits prev acc ds = Some (foldl (\<lambda>a c. 10 * a + digit_value c) acc ds, [])"
proof (induction ds arbitrary: prev acc)
  case Nil
  then show ?case by simp
next
  case (Cons c cs)
  then have "is_digit c" "list_all is_digit cs" by simp_all
  moreover from this have "c \<noteq> CHR ''_''" using is_digit_not_mark by blast
  ultimately show ?case using Cons.IH [of c] by simp
qed

lemma int_body_str_nat: "int_body neg (str_nat n) = Inr (signed neg n)"
proof -
  obtain c cs where cs: "str_nat n = c # cs"
    using str_nat_nonempty by (cases "str_nat n") auto
  have dg: "list_all is_digit (c # cs)" using str_nat_digits [of n] cs by simp
  then have "scan_digits (CHR 0x00) 0 (c # cs) = Some (decimal_value (c # cs), [])"
    unfolding decimal_value_def by (intro scan_digits_all_digits) simp_all
  moreover have "decimal_value (c # cs) = n" using str_nat_value [of n] cs by simp
  ultimately show ?thesis using dg by (simp add: int_body_def cs)
qed

lemma py_int_py_str: "py_int (py_str t) = Inr t"
proof (cases "t < 0")
  case True
  have "\<not> int_space CHR ''-''" by (simp add: int_space_def)
  with True show ?thesis
    by (simp add: py_str_def py_int_def int_body_str_nat signed_def)
next
  case False
  obtain c cs where cs: "str_nat (nat t) = c # cs"
    using str_nat_nonempty by (cases "str_nat (nat t)") auto
  then have "is_digit c" using str_nat_digits [of "nat t"] by simp
  then have "c \<noteq> CHR ''+''" "c \<noteq> CHR ''-''" "\<not> int_space c"
    using is_digit_not_mark by blast+
  then have "py_int (c # cs) = int_body False (c # cs)" by (simp add: py_int_def)
  with False show ?thesis
    using int_body_str_nat [of False "nat t"] by (simp add: py_str_def cs signed_def)
qed


subsection \<open>What \<open>int\<close> accepts\<close>

lemma trim_right_Nil: "trim_right [] = []"
  by (simp add: trim_right_def)

lemma trim_right_eq_Nil: "trim_right s = [] \<longleftrightarrow> list_all int_space s"
  by (simp add: trim_right_def dropWhile_eq_Nil_conv list_all_iff)

lemma trim_right_Cons:
  "trim_right (c # cs) = (if int_space c \<and> list_all int_space cs then [] else c # trim_right cs)"
  by (auto simp: trim_right_def dropWhile_append list_all_iff)

lemma digit_groups_Cons:
  "digit_groups (c # xs) =
     (is_digit c \<and>
      (case xs of [] \<Rightarrow> True
       | d # ds \<Rightarrow> if d = CHR ''_'' then digit_groups ds else digit_groups (d # ds)))"
  by (cases xs) simp_all

lemma digit_groups_trim_right_Cons:
  "digit_groups (trim_right (c # cs)) =
     (is_digit c \<and>
      (list_all int_space cs \<or>
       (case cs of [] \<Rightarrow> False
        | d # ds \<Rightarrow> if d = CHR ''_'' then digit_groups (trim_right ds)
                   else digit_groups (trim_right cs))))"
proof (cases "is_digit c")
  case False
  then show ?thesis
    by (simp add: trim_right_Cons digit_groups_Cons)
next
  case True
  then have nsp: "\<not> int_space c" using is_digit_not_mark by blast
  show ?thesis
  proof (cases cs)
    case Nil
    with True nsp show ?thesis by (simp add: trim_right_Cons trim_right_Nil)
  next
    case (Cons d ds)
    have us: "\<not> int_space CHR ''_''" by (simp add: int_space_def)
    show ?thesis
    proof (cases "list_all int_space cs")
      case sp: True
      then have "trim_right cs = []" by (simp add: trim_right_eq_Nil)
      with True nsp sp show ?thesis by (simp add: trim_right_Cons)
    next
      case nsp2: False
      then have "trim_right cs = d # trim_right ds"
        unfolding Cons by (auto simp: trim_right_Cons)
      with True nsp nsp2 Cons us show ?thesis
        by (auto simp: trim_right_Cons [of c] digit_groups_Cons [of c])
    qed
  qed
qed


lemma digit_groups_hd: "digit_groups xs \<Longrightarrow> xs \<noteq> [] \<and> is_digit (hd xs)"
  by (cases xs) (auto simp: digit_groups_Cons)

lemma scan_digits_groups:
  "(p = CHR ''_'' \<longrightarrow>
      ((\<exists>v rest. scan_digits p a b = Some (v, rest) \<and> list_all int_space rest)
         \<longleftrightarrow> digit_groups (trim_right b))) \<and>
   (p \<noteq> CHR ''_'' \<longrightarrow>
      ((\<exists>v rest. scan_digits p a b = Some (v, rest) \<and> list_all int_space rest)
         \<longleftrightarrow> list_all int_space b \<or> digit_groups (trim_right b) \<or>
             (\<exists>cs. b = CHR ''_'' # cs \<and> digit_groups (trim_right cs))))"
proof (induction b arbitrary: p a)
  case Nil
  show ?case by (simp add: trim_right_Nil)
next
  case (Cons c cs)
  have us: "\<not> is_digit CHR ''_''" "\<not> int_space CHR ''_''"
    by (simp_all add: is_digit_def int_space_def)
  show ?case
  proof (cases "c = CHR ''_''")
    case True
    with us Cons.IH [of c a] show ?thesis
      by (simp add: digit_groups_trim_right_Cons)
  next
    case nus: False
    show ?thesis
    proof (cases "is_digit c")
      case True
      then have nsp: "\<not> int_space c" using is_digit_not_mark by blast
      have tail: "(\<exists>v rest. scan_digits c (10 * a + digit_value c) cs = Some (v, rest) \<and>
                     list_all int_space rest)
                  \<longleftrightarrow> digit_groups (trim_right (c # cs))"
      proof -
        have "(\<exists>v rest. scan_digits c (10 * a + digit_value c) cs = Some (v, rest) \<and>
                 list_all int_space rest)
              \<longleftrightarrow> list_all int_space cs \<or> digit_groups (trim_right cs) \<or>
                  (\<exists>ds. cs = CHR ''_'' # ds \<and> digit_groups (trim_right ds))"
          using Cons.IH [of c "10 * a + digit_value c"] nus by simp
        also have "\<dots> \<longleftrightarrow> digit_groups (trim_right (c # cs))"
        proof (cases cs)
          case Nil
          with True show ?thesis by (simp add: digit_groups_trim_right_Cons)
        next
          case (Cons d ds)
          show ?thesis
          proof (cases "d = CHR ''_''")
            case True
            with us have "\<not> digit_groups (trim_right (d # ds))"
              by (simp add: digit_groups_trim_right_Cons)
            with True \<open>is_digit c\<close> us show ?thesis
              unfolding Cons by (simp add: digit_groups_trim_right_Cons [of c])
          next
            case False
            with \<open>is_digit c\<close> show ?thesis
              unfolding Cons by (simp add: digit_groups_trim_right_Cons [of c])
          qed
        qed
        finally show ?thesis .
      qed
      with True nus nsp show ?thesis by simp
    next
      case False
      with nus show ?thesis
        by (auto simp: digit_groups_trim_right_Cons)
    qed
  qed
qed

lemma int_body_literal:
  "int_body neg b \<noteq> Inl ValueError \<longleftrightarrow> digit_groups (trim_right b)"
proof (cases b)
  case Nil
  then show ?thesis by (simp add: int_body_def trim_right_Nil)
next
  case (Cons c cs)
  show ?thesis
  proof (cases "is_digit c")
    case False
    then show ?thesis
      unfolding Cons by (simp add: int_body_def digit_groups_trim_right_Cons)
  next
    case True
    then have nm: "c \<noteq> CHR ''_''" "\<not> int_space c" using is_digit_not_mark by blast+
    have "int_body neg b \<noteq> Inl ValueError \<longleftrightarrow>
            (\<exists>v rest. scan_digits (CHR 0x00) 0 b = Some (v, rest) \<and> list_all int_space rest)"
      using True unfolding Cons
      by (auto simp: int_body_def dropWhile_eq_Nil_conv list_all_iff split: option.splits)
    also have "\<dots> \<longleftrightarrow> digit_groups (trim_right b)"
      using scan_digits_groups [of "CHR 0x00" 0 b] nm unfolding Cons by simp
    finally show ?thesis .
  qed
qed

lemma py_int_literal: "py_int s \<noteq> Inl ValueError \<longleftrightarrow> int_literal s"
proof (cases "dropWhile int_space s")
  case Nil
  show ?thesis unfolding py_int_def int_literal_def Nil by (simp add: trim_right_Nil)
next
  case (Cons c cs)
  then have "\<not> int_space c" by (metis hd_dropWhile list.sel(1) list.distinct(1))
  then have rs: "trim_right (c # cs) = c # trim_right cs" by (simp add: trim_right_Cons)
  have sg: "\<not> digit_groups (CHR ''+'' # xs)" "\<not> digit_groups (CHR ''-'' # xs)" for xs
    by (simp_all add: digit_groups_Cons is_digit_def)
  show ?thesis
    unfolding py_int_def int_literal_def Cons rs
    using int_body_literal [of False cs] int_body_literal [of True cs]
      int_body_literal [of False "c # cs"] rs
    by simp
qed

lemma digit_groups_chars: "digit_groups xs \<Longrightarrow> c \<in> set xs \<Longrightarrow> is_digit c \<or> c = CHR ''_''"
  by (induction xs rule: digit_groups.induct) (auto split: if_splits)

lemma trim_right_chars: "c \<in> set s \<Longrightarrow> c \<in> set (trim_right s) \<or> int_space c"
  by (induction s) (auto simp: trim_right_Cons list_all_iff)

lemma dropWhile_chars: "c \<in> set s \<Longrightarrow> c \<in> set (dropWhile P s) \<or> P c"
  by (induction s) auto

lemma int_literal_chars:
  assumes "int_literal s" and "c \<in> set s"
  shows "is_digit c \<or> int_space c \<or> c \<in> set ''_+-''"
proof -
  let ?t = "trim_right (dropWhile int_space s)"
  from assms(2) have "c \<in> set ?t \<or> int_space c"
    using dropWhile_chars trim_right_chars by metis
  moreover have "is_digit c \<or> c \<in> set ''_+-''" if "c \<in> set ?t"
    using assms(1) that
    by (auto simp: int_literal_def split: list.splits if_splits dest: digit_groups_chars)
  ultimately show ?thesis by blast
qed


section \<open>The mapper\<close>

text \<open>
  Claim C1, as amended.  Every pair the mapper yields comes from a line of at least 93
  characters, and its year is the slice of that line at offsets 15 to 19, four
  characters long.  The mapper does not look at what those characters are.
\<close>

theorem year_is_slice:
  assumes "mapper s k line = Inr ys" and "(year, temp) \<in> set ys"
  shows "93 \<le> length line \<and> year = slice line 15 19 \<and> length year = 4"
proof (cases "93 \<le> length line")
  case True
  with assms have "year = slice line 15 19"
    by (auto simp: mapper_long split: sum.splits if_splits)
  with True show ?thesis by (simp add: slice_year_length)
next
  case False
  with assms show ?thesis by (simp add: mapper_short)
qed

theorem year_is_slice_witness:
  "mapper () () (record_line ''1950'' ''+0078'' ''1'') = Inr [(''1950'', 78)] \<and>
   93 \<le> length (record_line ''1950'' ''+0078'' ''1'') \<and>
   ''1950'' = slice (record_line ''1950'' ''+0078'' ''1'') 15 19 \<and>
   length ''1950'' = 4"
proof -
  let ?L = "record_line ''1950'' ''+0078'' ''1''"
  have run: "mapper () () ?L = Inr [(''1950'', 78)]" by code_simp
  have mem: "(''1950'', 78) \<in> set [(''1950'', 78::int)]" by simp
  from year_is_slice [OF run mem] run show ?thesis by blast
qed

text \<open>
  What refutes C1 as it is written: a record whose year columns hold letters is
  accepted, and the letters are the year of the pair.
\<close>

theorem year_digits_counterexample:
  "mapper () () (record_line ''abcd'' ''+0078'' ''1'') = Inr [(''abcd'', 78)] \<and>
   \<not> list_all is_digit ''abcd''"
  by code_simp

text \<open>
  Claim C2, as amended.  For a line of at least 93 characters, \<open>int\<close> rejects the
  temperature field (the slice at offsets 87 to 92 without one leading plus sign)
  exactly when the field is not optional whitespace, at most one sign, decimal digits
  with at most single underscores between two digits, and optional whitespace.  A
  rejected field makes the mapper yield nothing, without an exception.  A field that
  holds any character other than a digit, whitespace, an underscore, a plus or a minus
  sign is rejected.
\<close>

theorem malformed_field_dropped:
  assumes "93 \<le> length line"
  shows "(py_int (temp_field line) = Inl ValueError \<longleftrightarrow> \<not> int_literal (temp_field line)) \<and>
         (\<not> int_literal (temp_field line) \<longrightarrow> mapper s k line = Inr []) \<and>
         ((\<exists>c\<in>set (temp_field line). \<not> is_digit c \<and> \<not> int_space c \<and> c \<notin> set ''_+-'')
            \<longrightarrow> \<not> int_literal (temp_field line))"
proof -
  have iff: "py_int (temp_field line) = Inl ValueError \<longleftrightarrow> \<not> int_literal (temp_field line)"
    using py_int_literal [of "temp_field line"] by blast
  have "mapper s k line = Inr []" if "\<not> int_literal (temp_field line)"
    using that iff assms by (simp add: mapper_long)
  moreover have "\<not> int_literal (temp_field line)"
    if "\<exists>c\<in>set (temp_field line). \<not> is_digit c \<and> \<not> int_space c \<and> c \<notin> set ''_+-''"
    using that int_literal_chars [of "temp_field line"] by blast
  ultimately show ?thesis using iff by blast
qed

theorem malformed_field_dropped_witness:
  "93 \<le> length (record_line ''1950'' ''12x45'' ''1'') \<and>
   CHR ''x'' \<in> set (temp_field (record_line ''1950'' ''12x45'' ''1'')) \<and>
   \<not> is_digit CHR ''x'' \<and> \<not> int_space CHR ''x'' \<and> CHR ''x'' \<notin> set ''_+-'' \<and>
   \<not> int_literal (temp_field (record_line ''1950'' ''12x45'' ''1'')) \<and>
   py_int (temp_field (record_line ''1950'' ''12x45'' ''1'')) = Inl ValueError \<and>
   mapper () () (record_line ''1950'' ''12x45'' ''1'') = Inr []"
proof -
  let ?L = "record_line ''1950'' ''12x45'' ''1''"
  have len: "93 \<le> length ?L" by code_simp
  have x: "CHR ''x'' \<in> set (temp_field ?L)" by code_simp
  have bad: "\<not> is_digit CHR ''x''" "\<not> int_space CHR ''x''" "CHR ''x'' \<notin> set ''_+-''"
    by code_simp+
  note inst = malformed_field_dropped [OF len, where s = "()" and k = "()"]
  from inst x bad have lit: "\<not> int_literal (temp_field ?L)" by blast
  with inst have "py_int (temp_field ?L) = Inl ValueError" "mapper () () ?L = Inr []"
    by blast+
  with len x bad lit show ?thesis by blast
qed

text \<open>
  What refutes C2 as it is written: a field with a non-digit character that is not a
  leading minus sign can parse.  A leading space is skipped and an underscore between
  digits is ignored, so both records below yield a pair.
\<close>

theorem nondigit_field_counterexample:
  "93 \<le> length (record_line ''1950'' '' 0078'' ''1'') \<and>
   temp_field (record_line ''1950'' '' 0078'' ''1'') = '' 0078'' \<and>
   \<not> is_digit CHR '' '' \<and>
   mapper () () (record_line ''1950'' '' 0078'' ''1'') = Inr [(''1950'', 78)] \<and>
   93 \<le> length (record_line ''1950'' ''1_234'' ''1'') \<and>
   temp_field (record_line ''1950'' ''1_234'' ''1'') = ''1_234'' \<and>
   \<not> is_digit CHR ''_'' \<and>
   mapper () () (record_line ''1950'' ''1_234'' ''1'') = Inr [(''1950'', 1234)]"
  by code_simp

text \<open>
  Claim C3.  A line of at least 93 characters whose temperature field, once a leading
  plus sign is removed, is \<open>9999\<close>, or parses to the integer 9999, yields nothing,
  whatever its quality code.
\<close>

theorem mapper_sentinel:
  assumes "93 \<le> length line"
    and "temp_field line = ''9999'' \<or> py_int (temp_field line) = Inr 9999"
  shows "mapper s k line = Inr []"
proof -
  have "py_int ''9999'' = Inr 9999" by code_simp
  with assms(2) have "py_int (temp_field line) = Inr 9999" by auto
  with assms(1) show ?thesis by (simp add: mapper_long)
qed

theorem mapper_sentinel_witness:
  "93 \<le> length (record_line ''1950'' ''+9999'' ''1'') \<and>
   temp_field (record_line ''1950'' ''+9999'' ''1'') = ''9999'' \<and>
   mapper () () (record_line ''1950'' ''+9999'' ''1'') = Inr []"
proof -
  let ?L = "record_line ''1950'' ''+9999'' ''1''"
  have len: "93 \<le> length ?L" by code_simp
  have fld: "temp_field ?L = ''9999''" by code_simp
  from mapper_sentinel [OF len disjI1 [OF fld]] have "mapper () () ?L = Inr []" .
  with len fld show ?thesis by blast
qed

text \<open>
  Claim C4.  A line of at least 93 characters whose character at offset 92 is none of
  \<open>0\<close>, \<open>1\<close>, \<open>4\<close>, \<open>5\<close>, \<open>9\<close> yields nothing, whatever its temperature; and a
  pair is only ever yielded for a line whose character at offset 92 is one of them.
\<close>

theorem mapper_quality_gate:
  "(93 \<le> length line \<and> line ! 92 \<notin> set ''01459'' \<longrightarrow> mapper s k line = Inr []) \<and>
   (mapper s k line = Inr ys \<and> p \<in> set ys \<longrightarrow> 93 \<le> length line \<and> line ! 92 \<in> set ''01459'')"
proof (cases "93 \<le> length line")
  case True
  then show ?thesis
    by (auto simp: mapper_long split: sum.splits if_splits)
next
  case False
  then show ?thesis by (auto simp: mapper_short)
qed

theorem mapper_quality_gate_witness:
  "93 \<le> length (record_line ''1950'' ''+0078'' ''2'') \<and>
   record_line ''1950'' ''+0078'' ''2'' ! 92 \<notin> set ''01459'' \<and>
   mapper () () (record_line ''1950'' ''+0078'' ''2'') = Inr [] \<and>
   mapper () () (record_line ''1950'' ''+0078'' ''4'') = Inr [(''1950'', 78)] \<and>
   record_line ''1950'' ''+0078'' ''4'' ! 92 \<in> set ''01459''"
proof -
  let ?B = "record_line ''1950'' ''+0078'' ''2''"
  let ?G = "record_line ''1950'' ''+0078'' ''4''"
  have len: "93 \<le> length ?B" by code_simp
  have bad: "?B ! 92 \<notin> set ''01459''" by code_simp
  have run: "mapper () () ?G = Inr [(''1950'', 78)]" by code_simp
  have mem: "(''1950'', 78) \<in> set [(''1950'', 78::int)]" by simp
  have "mapper () () ?B = Inr []"
    using mapper_quality_gate [of ?B "()" "()"] len bad by blast
  moreover have "?G ! 92 \<in> set ''01459''"
    using mapper_quality_gate [of ?G "()" "()" "[(''1950'', 78)]" "(''1950'', 78)"] run mem
    by blast
  ultimately show ?thesis using len bad run by blast
qed

text \<open>
  Claim C5.  A line of fewer than 93 characters yields nothing.  A line of exactly 93
  characters whose temperature field parses to a value other than 9999 and whose
  character at offset 92 is one of \<open>0\<close>, \<open>1\<close>, \<open>4\<close>, \<open>5\<close>, \<open>9\<close> yields its pair.
\<close>

theorem mapper_length_check:
  "(length line < 93 \<longrightarrow> mapper s k line = Inr []) \<and>
   (length line = 93 \<and> py_int (temp_field line) = Inr temp \<and> temp \<noteq> 9999 \<and>
    line ! 92 \<in> set ''01459'' \<longrightarrow> mapper s k line = Inr [(slice line 15 19, temp)])"
  by (simp add: mapper_short mapper_long)

theorem mapper_length_check_witness:
  "length (replicate 92 CHR ''0'') < 93 \<and>
   mapper () () (replicate 92 CHR ''0'') = Inr [] \<and>
   length (record_line ''1950'' ''+0078'' ''1'') = 93 \<and>
   py_int (temp_field (record_line ''1950'' ''+0078'' ''1'')) = Inr 78 \<and>
   record_line ''1950'' ''+0078'' ''1'' ! 92 \<in> set ''01459'' \<and>
   mapper () () (record_line ''1950'' ''+0078'' ''1'') = Inr [(''1950'', 78)]"
proof -
  let ?L = "record_line ''1950'' ''+0078'' ''1''"
  have short: "length (replicate 92 CHR ''0'') < 93" by simp
  have len: "length ?L = 93" by code_simp
  have tmp: "py_int (temp_field ?L) = Inr 78" by code_simp
  have q: "?L ! 92 \<in> set ''01459''" by code_simp
  have yr: "slice ?L 15 19 = ''1950''" by code_simp
  have ne: "(78::int) \<noteq> 9999" by simp
  note inst = mapper_length_check [where s = "()" and k = "()"]
  have "mapper () () (replicate 92 CHR ''0'') = Inr []"
    using inst [of "replicate 92 CHR ''0''"] short by blast
  moreover have "mapper () () ?L = Inr [(slice ?L 15 19, 78)]"
    using inst [of ?L 78] len tmp q ne by blast
  then have "mapper () () ?L = Inr [(''1950'', 78)]"
    by (simp only: yr)
  ultimately show ?thesis using short len tmp q by blast
qed



text \<open>
  Claim C8.  On every line the mapper returns without an exception, and it yields at
  most one pair.
\<close>

theorem mapper_total: "\<exists>ys. mapper s k line = Inr ys \<and> length ys \<le> 1"
proof (cases "93 \<le> length line")
  case True
  then show ?thesis by (simp add: mapper_long split: sum.splits)
next
  case False
  then show ?thesis by (simp add: mapper_short)
qed

text \<open>
  Claim C10.  Only the integer 9999 is the sentinel.  For a line of at least 93
  characters with an accepted quality code: the field \<open>-9999\<close> parses to -9999, a
  field that parses to -9999 yields the pair with the temperature -9999, and a field
  that parses at all is dropped exactly when its value is 9999.
\<close>

theorem only_9999_is_sentinel:
  assumes "93 \<le> length line" and "line ! 92 \<in> set ''01459''"
  shows "(slice line 87 92 = ''-9999'' \<longrightarrow> py_int (temp_field line) = Inr (- 9999)) \<and>
         (py_int (temp_field line) = Inr (- 9999)
            \<longrightarrow> mapper s k line = Inr [(slice line 15 19, - 9999)]) \<and>
         (\<forall>temp. py_int (temp_field line) = Inr temp
            \<longrightarrow> (mapper s k line = Inr [] \<longleftrightarrow> temp = 9999))"
proof -
  have "py_int ''-9999'' = Inr (- 9999)" by code_simp
  then show ?thesis using assms by (auto simp: mapper_long temp_field_cases)
qed

theorem only_9999_is_sentinel_witness:
  "93 \<le> length (record_line ''1950'' ''-9999'' ''1'') \<and>
   record_line ''1950'' ''-9999'' ''1'' ! 92 \<in> set ''01459'' \<and>
   slice (record_line ''1950'' ''-9999'' ''1'') 87 92 = ''-9999'' \<and>
   py_int (temp_field (record_line ''1950'' ''-9999'' ''1'')) = Inr (- 9999) \<and>
   mapper () () (record_line ''1950'' ''-9999'' ''1'') = Inr [(''1950'', - 9999)]"
proof -
  let ?L = "record_line ''1950'' ''-9999'' ''1''"
  have len: "93 \<le> length ?L" by code_simp
  have q: "?L ! 92 \<in> set ''01459''" by code_simp
  have fld: "slice ?L 87 92 = ''-9999''" by code_simp
  have yr: "slice ?L 15 19 = ''1950''" by code_simp
  note inst = only_9999_is_sentinel [OF len q, where s = "()" and k = "()"]
  from inst fld have prs: "py_int (temp_field ?L) = Inr (- 9999)" by blast
  with inst have "mapper () () ?L = Inr [(slice ?L 15 19, - 9999)]" by blast
  then have "mapper () () ?L = Inr [(''1950'', - 9999)]" by (simp only: yr)
  with len q fld prs show ?thesis by blast
qed


section \<open>The reducer\<close>

lemma reducer_length: "length (reducer s year temps) = length temps"
  by (induction temps) simp_all

lemma reducer_nth:
  "i < length temps \<Longrightarrow> reducer s year temps ! i = (None, format_line year (temps ! i))"
proof (induction temps arbitrary: i)
  case Nil
  then show ?case by simp
next
  case (Cons t ts)
  then show ?case by (cases i) simp_all
qed

text \<open>
  Claim C7.  For every year and every list of temperatures the reducer yields one pair
  per temperature, in the order of the list: the key \<open>None\<close> and the year, one
  space and \<open>str\<close> of the temperature.  \<open>str\<close> of a negative integer is a minus
  sign and the decimal digits of its absolute value; of a non-negative one, the
  decimal digits only, so no plus sign; and the digits begin with a zero only when the
  number is zero.
\<close>

theorem reducer_lines:
  "length (reducer s year temps) = length temps \<and>
   (\<forall>i<length temps.
      reducer s year temps ! i = (None, year @ '' '' @ py_str (temps ! i))) \<and>
   (\<forall>t<0. \<exists>ds. py_str t = CHR ''-'' # ds \<and> ds \<noteq> [] \<and> list_all is_digit ds \<and>
              decimal_value ds = nat (- t) \<and> hd ds \<noteq> CHR ''0'') \<and>
   (\<forall>t\<ge>0. py_str t \<noteq> [] \<and> list_all is_digit (py_str t) \<and>
           decimal_value (py_str t) = nat t \<and> (hd (py_str t) = CHR ''0'' \<longrightarrow> py_str t = ''0''))"
proof -
  have neg: "\<exists>ds. py_str t = CHR ''-'' # ds \<and> ds \<noteq> [] \<and> list_all is_digit ds \<and>
              decimal_value ds = nat (- t) \<and> hd ds \<noteq> CHR ''0''" if "t < 0" for t
    using that by (simp add: py_str_def str_nat_nonempty str_nat_digits str_nat_value str_nat_hd)
  have pos: "py_str t \<noteq> [] \<and> list_all is_digit (py_str t) \<and>
           decimal_value (py_str t) = nat t \<and> (hd (py_str t) = CHR ''0'' \<longrightarrow> py_str t = ''0'')"
    if "0 \<le> t" for t
  proof (cases "t = 0")
    case True
    then show ?thesis
      by (simp add: py_str_def str_nat_zero decimal_value_def) (simp add: is_digit_def digit_value_def)
  next
    case False
    with that have "0 < nat t" by simp
    then have "hd (str_nat (nat t)) \<noteq> CHR ''0''" by (rule str_nat_hd)
    with that show ?thesis
      by (simp add: py_str_def str_nat_nonempty str_nat_digits str_nat_value)
  qed
  show ?thesis
    using neg pos by (simp add: reducer_length reducer_nth format_line_def)
qed

theorem reducer_lines_witness:
  "length (reducer () ''1950'' [100, - 20]) = 2 \<and>
   reducer () ''1950'' [100, - 20] ! 0 = (None, ''1950 100'') \<and>
   reducer () ''1950'' [100, - 20] ! 1 = (None, ''1950 -20'')"
proof -
  let ?R = "reducer () ''1950'' [100, - 20]"
  note inst = reducer_lines [of "()" "''1950''" "[100, - 20]"]
  note nth = inst [THEN conjunct2, THEN conjunct1, rule_format]
  have a: "py_str 100 = ''100''" by code_simp
  have b: "py_str (- 20) = ''-20''" by code_simp
  have "length ?R = 2" using inst [THEN conjunct1] by simp
  moreover have "?R ! 0 = (None, ''1950'' @ '' '' @ py_str ([100, - 20] ! 0))"
    by (rule nth) simp
  then have "?R ! 0 = (None, ''1950 100'')" by (simp add: a)
  moreover have "?R ! 1 = (None, ''1950'' @ '' '' @ py_str ([100, - 20] ! 1))"
    by (rule nth) simp
  then have "?R ! 1 = (None, ''1950 -20'')" by (simp add: b)
  ultimately show ?thesis by blast
qed

end
